theory Spec2Isabelle
  imports Main
begin

section \<open>Shared helpers: Go's strings and fmt\<close>

text \<open>
  \<^verbatim>\<open>strings.Split(s, "/")\<close> with a one-byte separator: the pieces between the
  separators, in order. The empty string gives one empty piece, and a string with n
  separators gives n + 1 pieces.
\<close>

fun strings_Split :: "string \<Rightarrow> char \<Rightarrow> string list" where
  "strings_Split [] c = [[]]"
| "strings_Split (x # xs) c =
     (if x = c then [] # strings_Split xs c
      else (case strings_Split xs c of
              [] \<Rightarrow> [[x]]
            | y # ys \<Rightarrow> (x # y) # ys))"

text \<open>\<^verbatim>\<open>strings.Contains(s, "$")\<close>\<close>

definition containsDollarSign :: "string \<Rightarrow> bool" where
  "containsDollarSign s = (CHR ''$'' \<in> set s)"

text \<open>The verb \<^verbatim>\<open>%d\<close> of \<^verbatim>\<open>fmt.Sprintf\<close> on a length (never negative).\<close>

definition digit_char :: "nat \<Rightarrow> char" where
  "digit_char d = ''0123456789'' ! d"

function fmt_d :: "nat \<Rightarrow> string" where
  "fmt_d n = (if n < 10 then [digit_char n] else fmt_d (n div 10) @ [digit_char (n mod 10)])"
  by pat_completeness auto
termination
  by (relation "measure (\<lambda>n. n)") auto

declare fmt_d.simps [simp del]

section \<open>The scraper (scrapper/main.go)\<close>

subsection \<open>Data\<close>

record ProductInfo =
  p_Id :: string
  p_Name :: string
  p_SKU :: string
  p_Price :: string
  p_URL :: string

record Response =
  Message :: string
  NumberDiscovered :: nat
  NumberIndexed :: nat

text \<open>The zero value \<^verbatim>\<open>Response{}\<close>.\<close>

definition Response_zero :: Response where
  "Response_zero = \<lparr>Message = [], NumberDiscovered = 0, NumberIndexed = 0\<rparr>"

text \<open>
  A DynamoDB attribute value, as far as the code reads it: the field \<^verbatim>\<open>S\<close> is a
  \<^verbatim>\<open>*string\<close>, nil for an attribute of another type. An item is a Go map from
  attribute names to attribute values, kept as an association list.
\<close>

datatype AttributeValue = AttributeValue (S: "string option")

type_synonym item = "(string \<times> AttributeValue) list"

text \<open>
  \<^verbatim>\<open>url.URL\<close>, as far as the code reads it: the rendering \<^verbatim>\<open>URL.String()\<close> and the
  parsed query \<^verbatim>\<open>URL.Query()\<close> (each key with its values).
\<close>

record URL_t =
  URL_String :: string
  URL_Query :: "(string \<times> string list) list"

text \<open>\<^verbatim>\<open>url.Values.Get\<close>: the first value of the key, the empty string without one.\<close>

definition Values_Get :: "(string \<times> string list) list \<Rightarrow> string \<Rightarrow> string" where
  "Values_Get q k =
     (case map_of q k of
        None \<Rightarrow> []
      | Some [] \<Rightarrow> []
      | Some (v # _) \<Rightarrow> v)"

text \<open>
  A \<^verbatim>\<open>colly.HTMLElement\<close> matched by the selector
  \<^verbatim>\<open>div[data-testid="store-grids-wrapper"] a[href]\<close>, as far as the callback reads it:
  \<^verbatim>\<open>e.Attr("href")\<close>, \<^verbatim>\<open>e.ChildText("p.rivian-css-1vv3rb5")\<close>, the \<^verbatim>\<open>Text\<close> of each
  descendant \<^verbatim>\<open>p\<close> in document order (what \<^verbatim>\<open>e.ForEach("p", ...)\<close> visits), and
  \<^verbatim>\<open>e.Request.URL\<close>.
\<close>

record HTMLElement =
  Attr_href :: string
  ChildText_name :: string
  p_Texts :: "string list"
  Request_URL :: URL_t

datatype log_line =
    Log_FailedLoad string
  | Log_FailedStore string string
  | Log_Indexed string
  | Log_VisitError string
  | Log_MarshalError string
  | Log_Found nat
  | Log_TooLarge

text \<open>
  What the run touches outside the handler: the outcome of \<^verbatim>\<open>db.Scan\<close>, the error
  of the n-th \<^verbatim>\<open>db.PutItem\<close> call of the run (none for a successful write), the
  clock read at the n-th write, the elements \<^verbatim>\<open>c.Visit\<close> hands to the callback with
  the error it returns, and \<^verbatim>\<open>json.Marshal\<close>.
\<close>

record scraper_env =
  db_Scan :: "string + item list"
  db_PutItem :: "nat \<Rightarrow> item \<Rightarrow> string option"
  time_Now :: "nat \<Rightarrow> string"
  Visit_elements :: "HTMLElement list"
  Visit_err :: "string option"
  json_Marshal :: "ProductInfo list \<Rightarrow> string + string"

text \<open>
  The variables the callback closes over (\<^verbatim>\<open>allProducts\<close>, \<^verbatim>\<open>discoveredProducts\<close>)
  and the trace of the run: every \<^verbatim>\<open>PutItem\<close> issued with its outcome, the log, and
  whether \<^verbatim>\<open>c.Visit\<close> has been called.
\<close>

record run_state =
  allProducts :: "ProductInfo list"
  discoveredProducts :: "ProductInfo list"
  db_puts :: "(item \<times> string option) list"
  logs :: "log_line list"
  visited :: bool

definition run_state_init :: run_state where
  "run_state_init =
     \<lparr>allProducts = [], discoveredProducts = [], db_puts = [], logs = [], visited = False\<rparr>"

text \<open>
  How a call of the handler ends: \<^verbatim>\<open>log.Fatalf\<close> logs and exits the process with
  status 1, a nil pointer dereference panics, and otherwise the handler returns its pair
  of a response and an error (\<open>None\<close> for nil).
\<close>

datatype 'a outcome = Fatal_exit | Panicked | Returned 'a

subsection \<open>loadExistingProducts\<close>

text \<open>
  The loop over \<^verbatim>\<open>result.Items\<close>: an item with an \<^verbatim>\<open>Id\<close> attribute marks
  \<^verbatim>\<open>*attr.S\<close> in the map; a nil \<^verbatim>\<open>S\<close> there is a nil dereference (\<open>None\<close>). The
  Go map \<^verbatim>\<open>map[string]bool\<close> reads false at a missing key, so it is a total function.
\<close>

fun load_items :: "item list \<Rightarrow> (string \<Rightarrow> bool) \<Rightarrow> (string \<Rightarrow> bool) option" where
  "load_items [] m = Some m"
| "load_items (it # its) m =
     (case map_of it ''Id'' of
        None \<Rightarrow> load_items its m
      | Some attr \<Rightarrow>
          (case S attr of
             None \<Rightarrow> None
           | Some s \<Rightarrow> load_items its (m(s := True))))"

datatype load_result = Load_error string | Load_panic | Loaded "string \<Rightarrow> bool"

definition loadExistingProducts :: "scraper_env \<Rightarrow> load_result" where
  "loadExistingProducts env =
     (case db_Scan env of
        Inl err \<Rightarrow> Load_error err
      | Inr items \<Rightarrow>
          (case load_items items (\<lambda>_. False) of
             None \<Rightarrow> Load_panic
           | Some m \<Rightarrow> Loaded m))"

subsection \<open>extractPrice and extractSku\<close>

text \<open>
  The body of the \<^verbatim>\<open>ForEach\<close> callback of extractPrice, on the pair
  (\<^verbatim>\<open>price\<close>, \<^verbatim>\<open>priceFound\<close>).
\<close>

definition price_step :: "string \<times> bool \<Rightarrow> string \<Rightarrow> string \<times> bool" where
  "price_step acc t = (if t \<noteq> [] \<and> containsDollarSign t then (t, True) else acc)"

definition extractPrice :: "HTMLElement \<Rightarrow> string" where
  "extractPrice e =
     (let (price, priceFound) = foldl price_step ([], False) (p_Texts e)
      in if \<not> priceFound then ''N/A'' else price)"

definition extractSku :: "HTMLElement \<Rightarrow> string" where
  "extractSku e =
     (if length (URL_String (Request_URL e)) > 0 then
        (if Values_Get (URL_Query (Request_URL e)) ''sku'' \<noteq> []
         then Values_Get (URL_Query (Request_URL e)) ''sku''
         else [])
      else ''N/A'')"

subsection \<open>storeProduct\<close>

definition storeProduct_Item :: "string \<Rightarrow> ProductInfo \<Rightarrow> item" where
  "storeProduct_Item now p =
     [(''Id'', AttributeValue (Some (p_Id p))),
      (''Name'', AttributeValue (Some (p_Name p))),
      (''Price'', AttributeValue (Some (p_Price p))),
      (''GearShopUrl'', AttributeValue (Some (p_URL p))),
      (''DateIndexed'', AttributeValue (Some now))]"

definition storeProduct :: "scraper_env \<Rightarrow> ProductInfo \<Rightarrow> run_state \<Rightarrow> string option \<times> run_state" where
  "storeProduct env p st =
     (let n = length (db_puts st);
          input = storeProduct_Item (time_Now env n) p;
          err = db_PutItem env n input
      in (err, st\<lparr>db_puts := db_puts st @ [(input, err)]\<rparr>))"

subsection \<open>Handler\<close>

text \<open>The id of an anchor: the last piece of its href split at the slashes.\<close>

definition href_id :: "string \<Rightarrow> string" where
  "href_id url =
     (let parts = strings_Split url CHR ''/''
      in if length parts > 0 then last parts else [])"

text \<open>The \<^verbatim>\<open>OnHTML\<close> callback, on one matched element.\<close>

definition on_html :: "scraper_env \<Rightarrow> (string \<Rightarrow> bool) \<Rightarrow> run_state \<Rightarrow> HTMLElement \<Rightarrow> run_state" where
  "on_html env existingProducts st e =
     (let url = Attr_href e;
          ident = href_id url;
          name = ChildText_name e;
          price = extractPrice e;
          sku = extractSku e
      in if ident \<noteq> [] \<and> name \<noteq> [] \<and> url \<noteq> [] \<and> price \<noteq> [] then
           (let productInfo = \<lparr>p_Id = ident, p_Name = name, p_SKU = sku, p_Price = price, p_URL = url\<rparr>;
                st1 = st\<lparr>allProducts := allProducts st @ [productInfo]\<rparr>
            in if existingProducts (p_Id productInfo) then st1
               else
                 (let st2 = st1\<lparr>discoveredProducts := discoveredProducts st1 @ [productInfo]\<rparr>
                  in (case storeProduct env productInfo st2 of
                        (Some err, st3) \<Rightarrow> st3\<lparr>logs := logs st3 @ [Log_FailedStore (p_Id productInfo) err]\<rparr>
                      | (None, st3) \<Rightarrow> st3\<lparr>logs := logs st3 @ [Log_Indexed (p_Id productInfo)]\<rparr>)))
         else st)"

text \<open>\<^verbatim>\<open>c.Visit\<close>: the callback runs on each matched element, in document order.\<close>

definition visit :: "scraper_env \<Rightarrow> (string \<Rightarrow> bool) \<Rightarrow> run_state \<Rightarrow> run_state" where
  "visit env existingProducts st =
     foldl (on_html env existingProducts) (st\<lparr>visited := True\<rparr>) (Visit_elements env)"

definition Handler :: "scraper_env \<Rightarrow> (Response \<times> string option) outcome \<times> run_state" where
  "Handler env =
     (case loadExistingProducts env of
        Load_error err \<Rightarrow> (Fatal_exit, run_state_init\<lparr>logs := [Log_FailedLoad err]\<rparr>)
      | Load_panic \<Rightarrow> (Panicked, run_state_init)
      | Loaded existingProducts \<Rightarrow>
          (let st = visit env existingProducts run_state_init
           in (case Visit_err env of
                 Some err \<Rightarrow>
                   (Returned (Response_zero, Some err), st\<lparr>logs := logs st @ [Log_VisitError err]\<rparr>)
               | None \<Rightarrow>
                   (case json_Marshal env (allProducts st) of
                      Inl err \<Rightarrow>
                        (Returned (Response_zero, Some err), st\<lparr>logs := logs st @ [Log_MarshalError err]\<rparr>)
                    | Inr skuJSON \<Rightarrow>
                        (let st' = st\<lparr>logs := logs st @ [Log_Found (length (allProducts st))]\<rparr>
                         in if length skuJSON > 6 * 1024 * 1024 then
                              (Returned (Response_zero, Some ''response payload too large''),
                               st'\<lparr>logs := logs st' @ [Log_TooLarge]\<rparr>)
                            else
                              (Returned
                                 (\<lparr>Message = ''Indexed '' @ fmt_d (length (discoveredProducts st)) @ '' new product listings'',
                                   NumberDiscovered = length (allProducts st),
                                   NumberIndexed = length (discoveredProducts st)\<rparr>,
                                  None),
                               st'))))))"

section \<open>The notifier (notifier/main.go)\<close>

text \<open>
  The handler of the stream events, in its variant that publishes to SNS. The variants
  that send an e-mail through SES have the same loop and differ only in the request they
  build and send.
\<close>

subsection \<open>Data\<close>

datatype Product = Product (ID: string)

record notifier_Response =
  n_Message :: string
  n_Products :: "Product list"

definition notifier_Response_zero :: notifier_Response where
  "notifier_Response_zero = \<lparr>n_Message = [], n_Products = []\<rparr>"

definition GEAR_SHOP_HOSTNAME :: string where
  "GEAR_SHOP_HOSTNAME = ''https://rivian.com''"

text \<open>
  A stream record, as far as the handler reads it: the event name and, for each key,
  the value of \<^verbatim>\<open>record.Change.NewImage[key].String()\<close>.
\<close>

record DynamoDBEventRecord =
  EventName :: string
  NewImage_String :: "string \<Rightarrow> string"

record DynamoDBEvent =
  Records :: "DynamoDBEventRecord list"

record PublishInput =
  pi_Message :: string
  pi_TopicArn :: string
  pi_Subject :: string

text \<open>
  What the handler touches outside: the environment variables, and the outcome of the
  n-th \<^verbatim>\<open>snsClient.Publish\<close> call (an error, or the message id).
\<close>

record notifier_env =
  os_Getenv :: "string \<Rightarrow> string"
  sns_Publish :: "nat \<Rightarrow> PublishInput \<Rightarrow> string + string"

datatype out_line =
    Out_EventReceived string
  | Out_FailedParse
  | Out_Println string
  | Out_SkipLocal
  | Out_Published string string

text \<open>
  The variable \<^verbatim>\<open>products\<close> of the handler, and the trace: the requests published and
  the lines printed.
\<close>

record notifier_state =
  products :: "Product list"
  published :: "PublishInput list"
  stdout :: "out_line list"

definition notifier_state_init :: notifier_state where
  "notifier_state_init = \<lparr>products = [], published = [], stdout = []\<rparr>"

subsection \<open>Handler\<close>

definition is_local :: "notifier_env \<Rightarrow> bool" where
  "is_local env \<longleftrightarrow> os_Getenv env ''ENVIRONMENT'' = ''local'' \<or> os_Getenv env ''AWS_SAM_LOCAL'' \<noteq> []"

text \<open>
  The loop over \<^verbatim>\<open>event.Records\<close>. It ends with \<open>None\<close> when the records are
  exhausted or at a \<^verbatim>\<open>break\<close>, and with the error when a publish fails and the
  handler returns from inside the loop.
\<close>

fun records_loop ::
  "notifier_env \<Rightarrow> DynamoDBEventRecord list \<Rightarrow> notifier_state \<Rightarrow> string option \<times> notifier_state" where
  "records_loop env [] st = (None, st)"
| "records_loop env (record # rest) st =
     (let st0 = st\<lparr>stdout := stdout st @ [Out_EventReceived (EventName record)]\<rparr>
      in if EventName record = ''INSERT'' then
           (let ident = NewImage_String record ''Id'';
                name = NewImage_String record ''Name'';
                price = NewImage_String record ''Price'';
                url = NewImage_String record ''GearShopUrl''
            in if ident = [] \<and> name = [] \<and> url = [] then
                 (None, st0\<lparr>stdout := stdout st0 @ [Out_FailedParse]\<rparr>)
               else
                 (let st1 = st0\<lparr>products := products st0 @ [Product ident]\<rparr>;
                      message = ''New Rivian Gear Shop product added: '' @ name @ '', Url: ''
                                 @ GEAR_SHOP_HOSTNAME @ url @ '', Price: '' @ price;
                      st2 = st1\<lparr>stdout := stdout st1 @ [Out_Println message]\<rparr>
                  in if is_local env then
                       (None, st2\<lparr>stdout := stdout st2 @ [Out_SkipLocal]\<rparr>)
                     else
                       (let input = \<lparr>pi_Message = message,
                                     pi_TopicArn = os_Getenv env ''SNS_TOPIC_ARN'',
                                     pi_Subject = ''[Rivian GearShop] New Product Alert''\<rparr>;
                            st3 = st2\<lparr>published := published st2 @ [input]\<rparr>
                        in (case sns_Publish env (length (published st2)) input of
                              Inl err \<Rightarrow> (Some (''failed to publish SNS message: '' @ err), st3)
                            | Inr messageId \<Rightarrow>
                                records_loop env rest
                                  (st3\<lparr>stdout := stdout st3 @ [Out_Published message messageId]\<rparr>)))))
         else records_loop env rest st0)"

definition notifier_Handler ::
  "notifier_env \<Rightarrow> DynamoDBEvent \<Rightarrow> (notifier_Response \<times> string option) \<times> notifier_state" where
  "notifier_Handler env event =
     (case records_loop env (Records event) notifier_state_init of
        (Some err, st) \<Rightarrow> ((notifier_Response_zero, Some err), st)
      | (None, st) \<Rightarrow>
          ((\<lparr>n_Message = ''Successfully processed '' @ fmt_d (length (Records event))
                            @ '' DynamoDB stream event(s)'',
             n_Products = products st\<rparr>, None), st))"

section \<open>Notions used to state the properties\<close>

text \<open>The record the callback builds from an element, and the guard it must pass.\<close>

definition product_of :: "HTMLElement \<Rightarrow> ProductInfo" where
  "product_of e =
     \<lparr>p_Id = href_id (Attr_href e), p_Name = ChildText_name e, p_SKU = extractSku e,
      p_Price = extractPrice e, p_URL = Attr_href e\<rparr>"

definition passes_guard :: "HTMLElement \<Rightarrow> bool" where
  "passes_guard e \<longleftrightarrow>
     href_id (Attr_href e) \<noteq> [] \<and> ChildText_name e \<noteq> [] \<and> Attr_href e \<noteq> [] \<and> extractPrice e \<noteq> []"

text \<open>The string under \<^verbatim>\<open>Id\<close> of an item, and the ids of the writes a run issued.\<close>

definition item_Id :: "item \<Rightarrow> string option" where
  "item_Id it = (case map_of it ''Id'' of None \<Rightarrow> None | Some a \<Rightarrow> S a)"

definition put_Ids :: "run_state \<Rightarrow> string option list" where
  "put_Ids st = map (\<lambda>w. item_Id (fst w)) (db_puts st)"

text \<open>The items whose write succeeded.\<close>

definition persisted :: "run_state \<Rightarrow> item list" where
  "persisted st = map fst (filter (\<lambda>w. snd w = None) (db_puts st))"

text \<open>
  Parseable as the specification words it: at least one of id, name and url is not empty.
\<close>

definition parseable_spec :: "HTMLElement \<Rightarrow> bool" where
  "parseable_spec e \<longleftrightarrow>
     href_id (Attr_href e) \<noteq> [] \<or> ChildText_name e \<noteq> [] \<or> Attr_href e \<noteq> []"

text \<open>Id, name and url are all present.\<close>

definition id_name_url_set :: "HTMLElement \<Rightarrow> bool" where
  "id_name_url_set e \<longleftrightarrow>
     href_id (Attr_href e) \<noteq> [] \<and> ChildText_name e \<noteq> [] \<and> Attr_href e \<noteq> []"

text \<open>An \<^verbatim>\<open>INSERT\<close> record whose id, name and url are all the empty string.\<close>

definition blank_insert :: "DynamoDBEventRecord \<Rightarrow> bool" where
  "blank_insert r \<longleftrightarrow>
     EventName r = ''INSERT'' \<and> NewImage_String r ''Id'' = [] \<and> NewImage_String r ''Name'' = []
     \<and> NewImage_String r ''GearShopUrl'' = []"

section \<open>Example inputs\<close>

definition gear_shop_URL :: URL_t where
  "gear_shop_URL = \<lparr>URL_String = ''https://rivian.com/gear-shop'', URL_Query = []\<rparr>"

definition anchor :: "string \<Rightarrow> string \<Rightarrow> string list \<Rightarrow> HTMLElement" where
  "anchor h n ps = \<lparr>Attr_href = h, ChildText_name = n, p_Texts = ps, Request_URL = gear_shop_URL\<rparr>"

definition anchor_hat :: HTMLElement where
  "anchor_hat = anchor ''/products/abc123'' ''Trail Hat'' [''Trail Hat'', ''$35.00'']"

definition anchor_mug :: HTMLElement where
  "anchor_mug = anchor ''/products/xyz999'' ''Camp Mug'' [''Camp Mug'', ''$18.00'']"

definition stored_item :: "string \<Rightarrow> item" where
  "stored_item i = [(''Id'', AttributeValue (Some i))]"

text \<open>A run in which the scan returns the given items, every write succeeds unless
  its number is listed, and the page holds the given anchors.\<close>

definition example_env :: "item list \<Rightarrow> nat list \<Rightarrow> HTMLElement list \<Rightarrow> scraper_env" where
  "example_env items failing es =
     \<lparr>db_Scan = Inr items,
      db_PutItem = (\<lambda>n it. if n \<in> set failing then Some ''ProvisionedThroughputExceededException'' else None),
      time_Now = (\<lambda>n. ''2024-10-01T00:00:00Z''),
      Visit_elements = es,
      Visit_err = None,
      json_Marshal = (\<lambda>ps. Inr ''[]'')\<rparr>"

text \<open>Two runs on the same page: the first on an empty store, the second on a store
  holding what the first one wrote.\<close>

definition first_run_env :: scraper_env where
  "first_run_env = example_env [] [] [anchor_hat, anchor_mug]"

definition second_run_env :: scraper_env where
  "second_run_env = example_env (persisted (snd (Handler first_run_env))) [] [anchor_hat, anchor_mug]"

definition known_abc123 :: "string \<Rightarrow> bool" where
  "known_abc123 = (\<lambda>_. False)(''abc123'' := True)"

definition anchor_name_only :: HTMLElement where
  "anchor_name_only = anchor [] ''Trail Hat'' []"

definition anchor_two_prices :: HTMLElement where
  "anchor_two_prices = anchor ''/products/abc123'' ''Trail Hat'' [''Trail Hat'', ''$35.00'', ''$40.00'']"

definition anchor_trailing_slash :: HTMLElement where
  "anchor_trailing_slash = anchor ''/products/abc123/'' ''Trail Hat'' [''Trail Hat'', ''$35.00'']"

definition scan_fails_env :: scraper_env where
  "scan_fails_env = (example_env [] [] [anchor_hat])\<lparr>db_Scan := Inl ''ResourceNotFoundException''\<rparr>"

definition name_only_env :: scraper_env where
  "name_only_env = example_env [] [] [anchor_name_only, anchor_hat]"

definition duplicate_env :: scraper_env where
  "duplicate_env = example_env [] [] [anchor_hat, anchor_hat]"

definition one_write_fails_env :: scraper_env where
  "one_write_fails_env = example_env [] [0] [anchor_hat, anchor_mug]"

text \<open>Stream records, and a deployed notifier whose publishes succeed.\<close>

definition image_of :: "(string \<times> string) list \<Rightarrow> string \<Rightarrow> string" where
  "image_of kvs k = (case map_of kvs k of None \<Rightarrow> [] | Some v \<Rightarrow> v)"

definition insert_hat :: DynamoDBEventRecord where
  "insert_hat = \<lparr>EventName = ''INSERT'',
     NewImage_String = image_of [(''Id'', ''abc123''), (''Name'', ''Trail Hat''), (''Price'', ''$35.00''),
                                 (''GearShopUrl'', ''/products/abc123'')]\<rparr>"

definition insert_mug :: DynamoDBEventRecord where
  "insert_mug = \<lparr>EventName = ''INSERT'',
     NewImage_String = image_of [(''Id'', ''xyz999''), (''Name'', ''Camp Mug''), (''Price'', ''$18.00''),
                                 (''GearShopUrl'', ''/products/xyz999'')]\<rparr>"

definition insert_blank :: DynamoDBEventRecord where
  "insert_blank = \<lparr>EventName = ''INSERT'', NewImage_String = image_of [(''Price'', ''$1.00'')]\<rparr>"

definition deployed_env :: notifier_env where
  "deployed_env =
     \<lparr>os_Getenv = image_of [(''SNS_TOPIC_ARN'', ''arn:aws:sns:us-west-1:000000000000:gear'')],
      sns_Publish = (\<lambda>n input. Inr ''message-id'')\<rparr>"

section \<open>Properties of the scraper\<close>

subsection \<open>Splitting\<close>

lemma strings_Split_length: "length (strings_Split s c) = Suc (length (filter (\<lambda>x. x = c) s))"
  by (induction s) (auto split: list.splits)

lemma strings_Split_nonempty: "strings_Split s c \<noteq> []"
  using strings_Split_length [of s c] by auto

lemma strings_Split_no_sep: "c \<notin> set s \<Longrightarrow> strings_Split s c = [s]"
  by (induction s) auto

lemma strings_Split_last_after_sep:
  "last (strings_Split (a @ c # b) c) = last (strings_Split b c)"
proof (induction a)
  case Nil
  then show ?case by (simp add: strings_Split_nonempty)
next
  case (Cons x a)
  show ?case
  proof (cases "x = c")
    case True
    then show ?thesis using Cons by (simp add: strings_Split_nonempty)
  next
    case False
    obtain y ys where eq: "strings_Split (a @ c # b) c = y # ys"
      using strings_Split_nonempty [of "a @ c # b" c] by (cases "strings_Split (a @ c # b) c") auto
    have "length (strings_Split (a @ c # b) c) \<ge> 2"
      by (simp add: strings_Split_length)
    with eq have "ys \<noteq> []" by auto
    with eq False Cons show ?thesis by simp
  qed
qed

subsection \<open>The known set\<close>

lemma load_items_Some:
  "load_items its m = Some m' \<Longrightarrow> m' s = (m s \<or> Some s \<in> item_Id ` set its)"
proof (induction its arbitrary: m)
  case Nil
  then show ?case by simp
next
  case (Cons it its)
  then show ?case
    by (cases "map_of it ''Id''") (auto simp: item_Id_def image_iff split: option.splits)
qed

lemma load_items_None_iff:
  "load_items its m = None \<longleftrightarrow> (\<exists>it \<in> set its. \<exists>a. map_of it ''Id'' = Some a \<and> S a = None)"
proof (induction its arbitrary: m)
  case Nil
  then show ?case by simp
next
  case (Cons it its)
  then show ?case
    by (cases "map_of it ''Id''") (auto split: option.splits)
qed

subsection \<open>One element, then the whole page\<close>

lemma item_Id_storeProduct_Item: "item_Id (storeProduct_Item now p) = Some (p_Id p)"
  by (simp add: item_Id_def storeProduct_Item_def)

lemma on_html_allProducts:
  "allProducts (on_html env K st e) =
     allProducts st @ (if passes_guard e then [product_of e] else [])"
  by (simp add: on_html_def passes_guard_def product_of_def storeProduct_def Let_def
           split: option.splits)

lemma on_html_discoveredProducts:
  "discoveredProducts (on_html env K st e) =
     discoveredProducts st @ (if passes_guard e \<and> \<not> K (p_Id (product_of e)) then [product_of e] else [])"
  by (simp add: on_html_def passes_guard_def product_of_def storeProduct_def Let_def
           split: option.splits)

lemma on_html_put_Ids:
  "put_Ids (on_html env K st e) =
     put_Ids st @ (if passes_guard e \<and> \<not> K (p_Id (product_of e)) then [Some (p_Id (product_of e))] else [])"
  by (simp add: on_html_def passes_guard_def product_of_def storeProduct_def Let_def put_Ids_def
           item_Id_storeProduct_Item split: option.splits)

lemma on_html_known:
  "K (href_id (Attr_href e)) \<Longrightarrow>
   discoveredProducts (on_html env K st e) = discoveredProducts st \<and>
   db_puts (on_html env K st e) = db_puts st"
  by (simp add: on_html_def Let_def)

lemma foldl_on_html_allProducts:
  "allProducts (foldl (on_html env K) st es) =
     allProducts st @ map product_of (filter passes_guard es)"
  by (induction es arbitrary: st) (simp_all add: on_html_allProducts)

lemma foldl_on_html_discoveredProducts:
  "discoveredProducts (foldl (on_html env K) st es) =
     discoveredProducts st @ filter (\<lambda>p. \<not> K (p_Id p)) (map product_of (filter passes_guard es))"
  by (induction es arbitrary: st) (simp_all add: on_html_discoveredProducts)

lemma foldl_on_html_put_Ids:
  "put_Ids (foldl (on_html env K) st es) =
     put_Ids st @ map (\<lambda>p. Some (p_Id p)) (filter (\<lambda>p. \<not> K (p_Id p)) (map product_of (filter passes_guard es)))"
  by (induction es arbitrary: st) (simp_all add: on_html_put_Ids)

lemma visit_allProducts:
  "allProducts (visit env K run_state_init) = map product_of (filter passes_guard (Visit_elements env))"
  by (simp add: visit_def foldl_on_html_allProducts run_state_init_def)

lemma visit_discoveredProducts:
  "discoveredProducts (visit env K run_state_init) =
     filter (\<lambda>p. \<not> K (p_Id p)) (map product_of (filter passes_guard (Visit_elements env)))"
  by (simp add: visit_def foldl_on_html_discoveredProducts run_state_init_def)

lemma visit_put_Ids:
  "put_Ids (visit env K run_state_init) =
     map (\<lambda>p. Some (p_Id p))
       (filter (\<lambda>p. \<not> K (p_Id p)) (map product_of (filter passes_guard (Visit_elements env))))"
proof -
  have "put_Ids (run_state_init\<lparr>visited := True\<rparr>) = []"
    by (simp add: put_Ids_def run_state_init_def)
  then show ?thesis
    by (simp add: visit_def foldl_on_html_put_Ids)
qed

text \<open>What the handler leaves behind once the known set is loaded: the lists of the
  visit, whatever it returns.\<close>

lemma Handler_Loaded_state:
  assumes "loadExistingProducts env = Loaded K"
  shows "allProducts (snd (Handler env)) = allProducts (visit env K run_state_init)"
    and "discoveredProducts (snd (Handler env)) = discoveredProducts (visit env K run_state_init)"
    and "db_puts (snd (Handler env)) = db_puts (visit env K run_state_init)"
  using assms by (simp_all add: Handler_def Let_def split: option.splits sum.splits)

lemma Handler_Loaded_put_Ids:
  "loadExistingProducts env = Loaded K \<Longrightarrow> put_Ids (snd (Handler env)) = put_Ids (visit env K run_state_init)"
  by (simp add: put_Ids_def Handler_Loaded_state)

lemma Handler_Returned_ok:
  assumes "Handler env = (Returned (resp, None), w)"
  shows "\<exists>K js. loadExistingProducts env = Loaded K \<and> Visit_err env = None
          \<and> json_Marshal env (allProducts (visit env K run_state_init)) = Inr js
          \<and> \<not> length js > 6 * 1024 * 1024
          \<and> NumberDiscovered resp = length (allProducts (visit env K run_state_init))
          \<and> NumberIndexed resp = length (discoveredProducts (visit env K run_state_init))"
  using assms
  by (auto simp: Handler_def Let_def split: load_result.splits option.splits sum.splits if_splits)

lemma loadExistingProducts_Loaded:
  assumes "loadExistingProducts env = Loaded K"
  shows "\<exists>items. db_Scan env = Inr items \<and> load_items items (\<lambda>_. False) = Some K"
  using assms by (auto simp: loadExistingProducts_def split: sum.splits option.splits)

lemmas example_defs =
  example_env_def anchor_def anchor_hat_def anchor_mug_def gear_shop_URL_def

lemmas scraper_defs =
  Handler_def loadExistingProducts_def visit_def on_html_def storeProduct_def storeProduct_Item_def
  href_id_def extractPrice_def extractSku_def price_step_def containsDollarSign_def Values_Get_def
  run_state_init_def Response_zero_def Let_def

lemma foldl_price_step:
  "foldl price_step acc ts =
     (if filter containsDollarSign ts = [] then acc else (last (filter containsDollarSign ts), True))"
proof (induction ts arbitrary: acc)
  case Nil
  then show ?case by simp
next
  case (Cons t ts)
  have ne: "containsDollarSign t \<Longrightarrow> t \<noteq> []"
    by (auto simp: containsDollarSign_def)
  have "foldl price_step acc (t # ts) = foldl price_step (price_step acc t) ts"
    by simp
  also have "\<dots> = (if filter containsDollarSign ts = [] then price_step acc t
                    else (last (filter containsDollarSign ts), True))"
    by (rule Cons)
  finally have step: "foldl price_step acc (t # ts) =
      (if filter containsDollarSign ts = [] then price_step acc t
       else (last (filter containsDollarSign ts), True))" .
  have ps: "price_step acc t = (if containsDollarSign t then (t, True) else acc)"
    using ne by (auto simp: price_step_def)
  show ?case
    unfolding step ps by simp
qed

lemma extractPrice_nonempty: "extractPrice e \<noteq> []"
proof (cases "filter containsDollarSign (p_Texts e) = []")
  case True
  then show ?thesis by (simp add: extractPrice_def foldl_price_step)
next
  case False
  then have "last (filter containsDollarSign (p_Texts e)) \<in> set (filter containsDollarSign (p_Texts e))"
    by (rule last_in_set)
  then have "containsDollarSign (last (filter containsDollarSign (p_Texts e)))"
    by simp
  then have "last (filter containsDollarSign (p_Texts e)) \<noteq> []"
    by (auto simp: containsDollarSign_def)
  with False show ?thesis by (simp add: extractPrice_def foldl_price_step)
qed

lemma href_id_last: "href_id url = last (strings_Split url CHR ''/'')"
  by (simp add: href_id_def strings_Split_nonempty)

lemma last_strings_Split:
  "last (strings_Split s c) = rev (takeWhile (\<lambda>x. x \<noteq> c) (rev s))"
proof (cases "c \<in> set s")
  case False
  then have tw: "takeWhile (\<lambda>x. x \<noteq> c) (rev s) = rev s"
    by (auto simp: takeWhile_eq_all_conv)
  show ?thesis
    by (subst tw) (simp add: strings_Split_no_sep [OF False])
next
  case True
  then obtain a b where s: "s = a @ c # b" and b: "c \<notin> set b"
    using split_list_last [of c s] by blast
  have "takeWhile (\<lambda>x. x \<noteq> c) (rev b @ c # rev a) = rev b"
    using b by (auto simp: takeWhile_append2 takeWhile_tail)
  then show ?thesis
    using b by (simp add: s strings_Split_last_after_sep strings_Split_no_sep)
qed

lemma passes_guard_iff: "passes_guard e \<longleftrightarrow> id_name_url_set e"
  by (simp add: passes_guard_def id_name_url_set_def extractPrice_nonempty)

section \<open>Properties of the notifier\<close>

lemma records_loop_blank:
  assumes "blank_insert r"
  shows "fst (records_loop env (pre @ r # post) st) = fst (records_loop env pre st)
       \<and> products (snd (records_loop env (pre @ r # post) st)) = products (snd (records_loop env pre st))
       \<and> published (snd (records_loop env (pre @ r # post) st)) = published (snd (records_loop env pre st))"
proof (induction pre arbitrary: st)
  case Nil
  show ?case using assms by (simp add: blank_insert_def Let_def)
next
  case (Cons x pre)
  show ?case
    by (simp add: Cons Let_def split: sum.splits)
qed

section \<open>The claims\<close>

text \<open>
  C1. A candidate whose id is in the known set loaded at the start of the run is not
  appended to the newly discovered products and no write is issued for it, whatever
  its name, price, sku and url are: the callback leaves \<open>discoveredProducts\<close> and the
  writes as they were on such an element, and at the end of the run neither the list of
  new products nor the list of writes holds it.
\<close>

theorem C1_known_id_is_skipped:
  assumes "loadExistingProducts env = Loaded K"
    and "K (href_id (Attr_href e))"
  shows "discoveredProducts (on_html env K st e) = discoveredProducts st
       \<and> db_puts (on_html env K st e) = db_puts st
       \<and> product_of e \<notin> set (discoveredProducts (snd (Handler env)))
       \<and> Some (p_Id (product_of e)) \<notin> set (put_Ids (snd (Handler env)))"
proof -
  have step: "discoveredProducts (on_html env K st e) = discoveredProducts st
       \<and> db_puts (on_html env K st e) = db_puts st"
    using assms(2) by (simp add: on_html_known)
  have idk: "K (p_Id (product_of e))"
    using assms(2) by (simp add: product_of_def)
  have new: "product_of e \<notin> set (discoveredProducts (snd (Handler env)))"
    using idk by (auto simp: Handler_Loaded_state(2) [OF assms(1)] visit_discoveredProducts)
  have puts: "Some (p_Id (product_of e)) \<notin> set (put_Ids (snd (Handler env)))"
    using idk by (auto simp: Handler_Loaded_put_Ids [OF assms(1)] visit_put_Ids)
  from step new puts show ?thesis by simp
qed

theorem C1_known_id_is_skipped_witness:
  "loadExistingProducts (example_env [stored_item ''abc123''] [] [anchor_hat, anchor_mug]) = Loaded known_abc123
   \<and> known_abc123 (href_id (Attr_href anchor_hat))
   \<and> product_of anchor_hat \<notin>
       set (discoveredProducts (snd (Handler (example_env [stored_item ''abc123''] [] [anchor_hat, anchor_mug]))))
   \<and> Some (p_Id (product_of anchor_hat)) \<notin>
       set (put_Ids (snd (Handler (example_env [stored_item ''abc123''] [] [anchor_hat, anchor_mug]))))"
proof -
  have h1: "loadExistingProducts (example_env [stored_item ''abc123''] [] [anchor_hat, anchor_mug]) = Loaded known_abc123"
    by (simp add: scraper_defs example_defs stored_item_def known_abc123_def)
  have h2: "known_abc123 (href_id (Attr_href anchor_hat))"
    by (simp add: scraper_defs example_defs known_abc123_def)
  show ?thesis
    using h1 h2 C1_known_id_is_skipped [OF h1 h2] by simp
qed

text \<open>
  C2. Idempotence over two runs. The first run returns a summary and every write it
  issued succeeded; the second run scans a store that holds the items of the first scan
  and the items the first run wrote, and fetches the same page. Then the second run
  returns a summary with \<open>NumberIndexed = 0\<close>, issues no write, and discovers as many
  products as the first.
\<close>

theorem C2_second_run_indexes_nothing:
  assumes run1: "Handler env1 = (Returned (resp1, None), w1)"
    and ok1: "list_all (\<lambda>w. snd w = None) (db_puts w1)"
    and scan1: "db_Scan env1 = Inr items1"
    and scan2: "db_Scan env2 = Inr items2"
    and store: "set items2 = set items1 \<union> set (persisted w1)"
    and page: "Visit_elements env2 = Visit_elements env1"
    and fetch: "Visit_err env2 = None"
    and json: "json_Marshal env2 = json_Marshal env1"
  shows "\<exists>resp2 w2. Handler env2 = (Returned (resp2, None), w2)
           \<and> NumberIndexed resp2 = 0 \<and> db_puts w2 = []
           \<and> NumberDiscovered resp2 = NumberDiscovered resp1"
proof -
  let ?C = "map product_of (filter passes_guard (Visit_elements env1))"
  from Handler_Returned_ok [OF run1] obtain K1 js where
    L1: "loadExistingProducts env1 = Loaded K1"
    and M1: "json_Marshal env1 (allProducts (visit env1 K1 run_state_init)) = Inr js"
    and small: "\<not> length js > 6 * 1024 * 1024"
    and nd1: "NumberDiscovered resp1 = length (allProducts (visit env1 K1 run_state_init))"
    by blast
  from loadExistingProducts_Loaded [OF L1] scan1
  have li1: "load_items items1 (\<lambda>_. False) = Some K1" by simp
  have w1: "w1 = snd (Handler env1)" using run1 by simp
  have puts1: "put_Ids w1 = map (\<lambda>p. Some (p_Id p)) (filter (\<lambda>p. \<not> K1 (p_Id p)) ?C)"
    unfolding w1 by (simp add: Handler_Loaded_put_Ids [OF L1] visit_put_Ids)
  have pers: "persisted w1 = map fst (db_puts w1)"
    using ok1 unfolding persisted_def by (induction "db_puts w1") (auto simp: list_all_iff filter_id_conv)
  have pers_ids: "item_Id ` set (persisted w1) = set (put_Ids w1)"
    by (simp add: pers put_Ids_def image_image)
  have nopanic1: "\<not> (\<exists>it \<in> set items1. \<exists>a. map_of it ''Id'' = Some a \<and> S a = None)"
    using li1 load_items_None_iff [of items1 "\<lambda>_. False"] by simp
  have nopanic_p: "\<not> (\<exists>it \<in> set (persisted w1). \<exists>a. map_of it ''Id'' = Some a \<and> S a = None)"
  proof
    assume "\<exists>it \<in> set (persisted w1). \<exists>a. map_of it ''Id'' = Some a \<and> S a = None"
    then obtain it a where it: "it \<in> set (persisted w1)" and a: "map_of it ''Id'' = Some a" "S a = None"
      by blast
    from it have "item_Id it \<in> set (put_Ids w1)" using pers_ids by blast
    then obtain s where "item_Id it = Some s" unfolding puts1 by auto
    with a show False by (simp add: item_Id_def)
  qed
  have "load_items items2 (\<lambda>_. False) \<noteq> None"
    using nopanic1 nopanic_p store load_items_None_iff [of items2 "\<lambda>_. False"] by auto
  then obtain K2 where li2: "load_items items2 (\<lambda>_. False) = Some K2" by auto
  have L2: "loadExistingProducts env2 = Loaded K2"
    by (simp add: loadExistingProducts_def scan2 li2)
  have K1: "\<And>s. K1 s = (Some s \<in> item_Id ` set items1)"
    using load_items_Some [OF li1] by simp
  have K2: "\<And>s. K2 s = (Some s \<in> item_Id ` set items2)"
    using load_items_Some [OF li2] by simp
  have all_known: "\<And>p. p \<in> set ?C \<Longrightarrow> K2 (p_Id p)"
  proof -
    fix p assume p: "p \<in> set ?C"
    show "K2 (p_Id p)"
    proof (cases "K1 (p_Id p)")
      case True
      then show ?thesis using K1 K2 store by auto
    next
      case False
      with p have "Some (p_Id p) \<in> set (put_Ids w1)" unfolding puts1 by auto
      then have "Some (p_Id p) \<in> item_Id ` set (persisted w1)" using pers_ids by simp
      then show ?thesis using K2 store by auto
    qed
  qed
  have disc2: "discoveredProducts (visit env2 K2 run_state_init) = []"
    using all_known by (auto simp: visit_discoveredProducts page filter_empty_conv)
  have all2: "allProducts (visit env2 K2 run_state_init) = allProducts (visit env1 K1 run_state_init)"
    by (simp add: visit_allProducts page)
  have ids2: "put_Ids (visit env2 K2 run_state_init) = []"
    using all_known by (auto simp: visit_put_Ids page filter_empty_conv)
  then have puts2: "db_puts (visit env2 K2 run_state_init) = []"
    by (simp add: put_Ids_def)
  have H2: "fst (Handler env2) = Returned
      (\<lparr>Message = ''Indexed '' @ fmt_d 0 @ '' new product listings'',
        NumberDiscovered = length (allProducts (visit env1 K1 run_state_init)),
        NumberIndexed = 0\<rparr>, None)"
    using small by (simp add: Handler_def L2 fetch json all2 M1 disc2 Let_def)
  have "db_puts (snd (Handler env2)) = []"
    by (simp add: Handler_Loaded_state(3) [OF L2] puts2)
  with H2 nd1 show ?thesis
    by (cases "Handler env2") auto
qed

lemma first_run_value:
  "Handler first_run_env =
     (Returned (\<lparr>Message = ''Indexed 2 new product listings'', NumberDiscovered = 2, NumberIndexed = 2\<rparr>, None),
      snd (Handler first_run_env))"
  by (simp add: first_run_env_def scraper_defs example_defs fmt_d.simps digit_char_def)

theorem C2_second_run_indexes_nothing_witness:
  "Handler first_run_env =
     (Returned (\<lparr>Message = ''Indexed 2 new product listings'', NumberDiscovered = 2, NumberIndexed = 2\<rparr>, None),
      snd (Handler first_run_env))
   \<and> list_all (\<lambda>w. snd w = None) (db_puts (snd (Handler first_run_env)))
   \<and> db_Scan first_run_env = Inr []
   \<and> db_Scan second_run_env = Inr (persisted (snd (Handler first_run_env)))
   \<and> length (persisted (snd (Handler first_run_env))) = 2
   \<and> Visit_elements second_run_env = Visit_elements first_run_env
   \<and> Visit_err second_run_env = None
   \<and> json_Marshal second_run_env = json_Marshal first_run_env
   \<and> (\<exists>resp2 w2. Handler second_run_env = (Returned (resp2, None), w2)
           \<and> NumberIndexed resp2 = 0 \<and> db_puts w2 = [] \<and> NumberDiscovered resp2 = 2)"
proof -
  have run1: "Handler first_run_env =
     (Returned (\<lparr>Message = ''Indexed 2 new product listings'', NumberDiscovered = 2, NumberIndexed = 2\<rparr>, None),
      snd (Handler first_run_env))"
    by (rule first_run_value)
  have ok1: "list_all (\<lambda>w. snd w = None) (db_puts (snd (Handler first_run_env)))"
    by (simp add: first_run_env_def scraper_defs example_defs)
  have n: "length (persisted (snd (Handler first_run_env))) = 2"
    by (simp add: first_run_env_def persisted_def scraper_defs example_defs)
  have scan1: "db_Scan first_run_env = Inr []"
    by (simp add: first_run_env_def example_env_def)
  have scan2: "db_Scan second_run_env = Inr (persisted (snd (Handler first_run_env)))"
    by (simp add: second_run_env_def example_env_def)
  have store: "set (persisted (snd (Handler first_run_env))) = set [] \<union> set (persisted (snd (Handler first_run_env)))"
    by simp
  have page: "Visit_elements second_run_env = Visit_elements first_run_env"
    by (simp add: first_run_env_def second_run_env_def example_env_def)
  have fetch: "Visit_err second_run_env = None"
    by (simp add: second_run_env_def example_env_def)
  have json: "json_Marshal second_run_env = json_Marshal first_run_env"
    by (simp add: first_run_env_def second_run_env_def example_env_def)
  from C2_second_run_indexes_nothing [OF run1 ok1 scan1 scan2 store page fetch json]
  show ?thesis using run1 ok1 n scan1 scan2 page fetch json by simp
qed

text \<open>
  C3, as amended. A candidate enters \<open>allProducts\<close> and is counted in
  \<open>NumberDiscovered\<close> exactly when its id, its name and its url are all non-empty (the
  fourth test of the guard, on the price, never fails). A candidate with only its name
  set is left out.
\<close>

theorem C3_needs_id_name_and_url:
  assumes "Handler env = (Returned (resp, None), w)"
  shows "allProducts w = map product_of (filter id_name_url_set (Visit_elements env))
       \<and> NumberDiscovered resp = length (filter id_name_url_set (Visit_elements env))
       \<and> allProducts (on_html env K st e) =
           (if id_name_url_set e then allProducts st @ [product_of e] else allProducts st)"
proof -
  from Handler_Returned_ok [OF assms] obtain K1 where
    L: "loadExistingProducts env = Loaded K1"
    and nd: "NumberDiscovered resp = length (allProducts (visit env K1 run_state_init))"
    by blast
  have w: "w = snd (Handler env)" using assms by simp
  have g: "filter passes_guard (Visit_elements env) = filter id_name_url_set (Visit_elements env)"
    by (rule filter_cong) (simp_all add: passes_guard_iff)
  have a: "allProducts w = map product_of (filter id_name_url_set (Visit_elements env))"
    unfolding w by (simp add: Handler_Loaded_state(1) [OF L] visit_allProducts g)
  have n: "NumberDiscovered resp = length (filter id_name_url_set (Visit_elements env))"
    by (simp add: nd visit_allProducts g)
  have s: "allProducts (on_html env K st e) =
           (if id_name_url_set e then allProducts st @ [product_of e] else allProducts st)"
    by (simp add: on_html_allProducts passes_guard_iff)
  from a n s show ?thesis by simp
qed

lemma name_only_value:
  "Handler name_only_env =
     (Returned (\<lparr>Message = ''Indexed 1 new product listings'', NumberDiscovered = 1, NumberIndexed = 1\<rparr>, None),
      snd (Handler name_only_env))"
  by (simp add: name_only_env_def anchor_name_only_def scraper_defs example_defs fmt_d.simps digit_char_def)

theorem C3_needs_id_name_and_url_witness:
  "Handler name_only_env =
     (Returned (\<lparr>Message = ''Indexed 1 new product listings'', NumberDiscovered = 1, NumberIndexed = 1\<rparr>, None),
      snd (Handler name_only_env))
   \<and> allProducts (snd (Handler name_only_env)) = [product_of anchor_hat]
   \<and> allProducts (on_html name_only_env (\<lambda>_. False) run_state_init anchor_name_only) = []"
proof -
  have f: "filter id_name_url_set (Visit_elements name_only_env) = [anchor_hat]"
    by (simp add: name_only_env_def anchor_name_only_def id_name_url_set_def href_id_def example_defs)
  have g: "\<not> id_name_url_set anchor_name_only"
    by (simp add: anchor_name_only_def id_name_url_set_def href_id_def example_defs)
  have i: "allProducts run_state_init = []"
    by (simp add: run_state_init_def)
  from C3_needs_id_name_and_url [OF name_only_value, of "\<lambda>_. False" run_state_init anchor_name_only]
  show ?thesis using name_only_value by (simp add: f g i)
qed

text \<open>
  C3 as stated fails: an anchor with a name, an empty href and so an empty id is
  parseable in the specification's sense, and the run leaves it out of \<open>allProducts\<close>
  and reports \<open>NumberDiscovered = 0\<close>.
\<close>

theorem C3_name_only_counterexample:
  "parseable_spec anchor_name_only
   \<and> href_id (Attr_href anchor_name_only) = [] \<and> Attr_href anchor_name_only = []
   \<and> ChildText_name anchor_name_only = ''Trail Hat''
   \<and> allProducts (snd (Handler (example_env [] [] [anchor_name_only]))) = []
   \<and> fst (Handler (example_env [] [] [anchor_name_only])) =
       Returned (\<lparr>Message = ''Indexed 0 new product listings'', NumberDiscovered = 0, NumberIndexed = 0\<rparr>, None)"
  by (simp add: parseable_spec_def anchor_name_only_def scraper_defs example_defs fmt_d.simps digit_char_def)

text \<open>
  C4 at a batch of two new records whose first write fails: the failure is logged,
  the second write is still issued and succeeds, and the summary reports
  \<open>NumberIndexed = 2\<close> although one record was written.
\<close>

theorem C4_failed_write_is_counted:
  "map snd (db_puts (snd (Handler one_write_fails_env))) = [Some ''ProvisionedThroughputExceededException'', None]
   \<and> put_Ids (snd (Handler one_write_fails_env)) = [Some ''abc123'', Some ''xyz999'']
   \<and> map item_Id (persisted (snd (Handler one_write_fails_env))) = [Some ''xyz999'']
   \<and> logs (snd (Handler one_write_fails_env)) =
       [Log_FailedStore ''abc123'' ''ProvisionedThroughputExceededException'', Log_Indexed ''xyz999'', Log_Found 2]
   \<and> fst (Handler one_write_fails_env) =
       Returned (\<lparr>Message = ''Indexed 2 new product listings'', NumberDiscovered = 2, NumberIndexed = 2\<rparr>, None)"
  by (simp add: one_write_fails_env_def put_Ids_def item_Id_def persisted_def scraper_defs example_defs
        fmt_d.simps digit_char_def)

lemma p_Id_product_of: "p_Id (product_of e) = href_id (Attr_href e)"
  by (simp add: product_of_def)

lemma new_products_of_page:
  "filter (\<lambda>p. \<not> K (p_Id p)) (map product_of (filter passes_guard es)) =
     map product_of (filter (\<lambda>e. passes_guard e \<and> \<not> K (href_id (Attr_href e))) es)"
  by (induction es) (simp_all add: p_Id_product_of)

lemma Handler_Returned_NumberIndexed:
  assumes "loadExistingProducts env = Loaded K"
    and "fst (Handler env) = Returned (resp, None)"
  shows "NumberIndexed resp = length (discoveredProducts (visit env K run_state_init))"
  using assms
  by (auto simp: Handler_def Let_def split: option.splits sum.splits if_splits)

text \<open>
  C5, as amended. The run keeps no set of the ids it has seen. The new products are
  the records of the page's anchors, in document order and each as often as it occurs,
  that pass the guard and whose id is not in the known set loaded at the start; one
  write is issued for each of them, with its id; and a returned summary counts every one
  of them in \<open>NumberIndexed\<close>. So two anchors with the same new id are both appended,
  both written and both counted.
\<close>

theorem C5_no_seen_set:
  assumes "loadExistingProducts env = Loaded K"
  shows "discoveredProducts (snd (Handler env)) =
           map product_of
             (filter (\<lambda>e. passes_guard e \<and> \<not> K (href_id (Attr_href e))) (Visit_elements env))
       \<and> put_Ids (snd (Handler env)) =
           map (\<lambda>e. Some (href_id (Attr_href e)))
             (filter (\<lambda>e. passes_guard e \<and> \<not> K (href_id (Attr_href e))) (Visit_elements env))
       \<and> (\<forall>resp. fst (Handler env) = Returned (resp, None) \<longrightarrow>
            NumberIndexed resp =
              length (filter (\<lambda>e. passes_guard e \<and> \<not> K (href_id (Attr_href e))) (Visit_elements env)))
       \<and> discoveredProducts (snd (Handler env)) =
           filter (\<lambda>p. \<not> K (p_Id p)) (allProducts (snd (Handler env)))
       \<and> put_Ids (snd (Handler env)) = map (\<lambda>p. Some (p_Id p)) (discoveredProducts (snd (Handler env)))"
proof -
  let ?new = "filter (\<lambda>e. passes_guard e \<and> \<not> K (href_id (Attr_href e))) (Visit_elements env)"
  have d: "discoveredProducts (snd (Handler env)) = map product_of ?new"
    by (simp add: Handler_Loaded_state(2) [OF assms] visit_discoveredProducts new_products_of_page)
  have a: "allProducts (snd (Handler env)) = map product_of (filter passes_guard (Visit_elements env))"
    by (simp add: Handler_Loaded_state(1) [OF assms] visit_allProducts)
  have p: "put_Ids (snd (Handler env)) = map (\<lambda>p. Some (p_Id p)) (discoveredProducts (snd (Handler env)))"
    by (simp add: Handler_Loaded_state(2) [OF assms] Handler_Loaded_put_Ids [OF assms]
          visit_discoveredProducts visit_put_Ids)
  have p': "put_Ids (snd (Handler env)) = map (\<lambda>e. Some (href_id (Attr_href e))) ?new"
    unfolding p d by (simp add: o_def p_Id_product_of)
  have f: "discoveredProducts (snd (Handler env)) =
           filter (\<lambda>p. \<not> K (p_Id p)) (allProducts (snd (Handler env)))"
    unfolding d a by (simp add: new_products_of_page)
  have n: "\<forall>resp. fst (Handler env) = Returned (resp, None) \<longrightarrow> NumberIndexed resp = length ?new"
  proof (intro allI impI)
    fix resp assume r: "fst (Handler env) = Returned (resp, None)"
    have "NumberIndexed resp = length (discoveredProducts (visit env K run_state_init))"
      by (rule Handler_Returned_NumberIndexed [OF assms r])
    then show "NumberIndexed resp = length ?new"
      by (simp add: visit_discoveredProducts new_products_of_page)
  qed
  from d p' n f p show ?thesis by blast
qed

theorem C5_no_seen_set_witness:
  "loadExistingProducts duplicate_env = Loaded (\<lambda>_. False)
   \<and> Visit_elements duplicate_env = [anchor_hat, anchor_hat]
   \<and> passes_guard anchor_hat
   \<and> href_id (Attr_href anchor_hat) = ''abc123''
   \<and> fst (Handler duplicate_env) =
       Returned (\<lparr>Message = ''Indexed 2 new product listings'', NumberDiscovered = 2, NumberIndexed = 2\<rparr>, None)
   \<and> discoveredProducts (snd (Handler duplicate_env)) = map product_of [anchor_hat, anchor_hat]
   \<and> put_Ids (snd (Handler duplicate_env)) = [Some ''abc123'', Some ''abc123'']
   \<and> NumberIndexed \<lparr>Message = ''Indexed 2 new product listings'', NumberDiscovered = 2, NumberIndexed = 2\<rparr>
       = length [anchor_hat, anchor_hat]"
proof -
  have L: "loadExistingProducts duplicate_env = Loaded (\<lambda>_. False)"
    by (simp add: duplicate_env_def loadExistingProducts_def example_env_def)
  have V: "Visit_elements duplicate_env = [anchor_hat, anchor_hat]"
    by (simp add: duplicate_env_def example_env_def)
  have G: "passes_guard anchor_hat"
    by (simp add: passes_guard_def scraper_defs example_defs)
  have I: "href_id (Attr_href anchor_hat) = ''abc123''"
    by (simp add: scraper_defs example_defs)
  have R: "fst (Handler duplicate_env) =
       Returned (\<lparr>Message = ''Indexed 2 new product listings'', NumberDiscovered = 2, NumberIndexed = 2\<rparr>, None)"
    by (simp add: duplicate_env_def scraper_defs example_defs fmt_d.simps digit_char_def)
  from C5_no_seen_set [OF L] show ?thesis
    using L V G I R by simp
qed

text \<open>
  C5 as stated fails: two anchors of one page with the same new id are both appended
  to \<open>discoveredProducts\<close>, both written and both counted.
\<close>

theorem C5_duplicate_counterexample:
  "p_Id (product_of anchor_hat) = ''abc123''
   \<and> discoveredProducts (snd (Handler duplicate_env)) = [product_of anchor_hat, product_of anchor_hat]
   \<and> put_Ids (snd (Handler duplicate_env)) = [Some ''abc123'', Some ''abc123'']
   \<and> fst (Handler duplicate_env) =
       Returned (\<lparr>Message = ''Indexed 2 new product listings'', NumberDiscovered = 2, NumberIndexed = 2\<rparr>, None)"
  by (simp add: duplicate_env_def product_of_def put_Ids_def item_Id_def scraper_defs example_defs
        fmt_d.simps digit_char_def)

text \<open>
  C6 at the listing page's own URL, which has no \<open>sku\<close> parameter: the sku of the
  record is the empty string, not \<open>N/A\<close>.
\<close>

theorem C6_sku_is_empty_without_parameter:
  "URL_String (Request_URL anchor_hat) = ''https://rivian.com/gear-shop''
   \<and> map_of (URL_Query (Request_URL anchor_hat)) ''sku'' = None
   \<and> extractSku anchor_hat = []
   \<and> p_SKU (product_of anchor_hat) \<noteq> ''N/A''"
  by (simp add: product_of_def scraper_defs example_defs)

text \<open>
  C7, as amended. The price is the text of the last descendant \<open>p\<close> element, in
  document order, whose text contains \<open>$\<close>, verbatim; without such an element it is
  \<open>N/A\<close>.
\<close>

theorem C7_last_dollar_text_wins:
  "extractPrice e =
     (if filter containsDollarSign (p_Texts e) = [] then ''N/A''
      else last (filter containsDollarSign (p_Texts e)))"
  by (simp add: extractPrice_def foldl_price_step)

theorem C7_last_dollar_text_wins_witness:
  "extractPrice anchor_two_prices = ''$40.00'' \<and> extractPrice anchor_name_only = ''N/A''"
  using C7_last_dollar_text_wins [of anchor_two_prices] C7_last_dollar_text_wins [of anchor_name_only]
  by (simp add: anchor_two_prices_def anchor_name_only_def anchor_def containsDollarSign_def)

text \<open>
  C7 as stated fails: with two texts holding \<open>$\<close>, the first is not the price.
\<close>

theorem C7_first_match_counterexample:
  "hd (filter containsDollarSign (p_Texts anchor_two_prices)) = ''$35.00''
   \<and> extractPrice anchor_two_prices \<noteq> ''$35.00''
   \<and> extractPrice anchor_two_prices = ''$40.00''"
  by (simp add: anchor_two_prices_def anchor_def scraper_defs)

text \<open>
  C8, as amended. The id is the last piece of the href split at \<open>/\<close>, that is the
  text after the last \<open>/\<close> (the whole href without one); an href that ends in \<open>/\<close>
  gives the empty id, and the callback then leaves the anchor out of \<open>allProducts\<close>.
\<close>

theorem C8_id_is_text_after_last_slash:
  "href_id url = rev (takeWhile (\<lambda>x. x \<noteq> CHR ''/'') (rev url))
   \<and> href_id (url @ ''/'') = []
   \<and> allProducts (on_html env K st (e\<lparr>Attr_href := url @ ''/''\<rparr>)) = allProducts st"
  by (simp add: href_id_last last_strings_Split on_html_allProducts passes_guard_def)

theorem C8_id_is_text_after_last_slash_witness:
  "href_id ''/products/abc123'' = ''abc123''
   \<and> href_id (''/products/abc123'' @ ''/'') = []
   \<and> allProducts (on_html first_run_env (\<lambda>_. False) run_state_init
        (anchor_hat\<lparr>Attr_href := ''/products/abc123'' @ ''/''\<rparr>)) = []"
  using C8_id_is_text_after_last_slash
          [of "''/products/abc123''" first_run_env "\<lambda>_. False" run_state_init anchor_hat]
  by (simp add: run_state_init_def)

text \<open>
  C8 as stated fails: for an href with a trailing slash the last non-empty segment is
  \<open>abc123\<close>, the id is empty, and the anchor is dropped by the guard.
\<close>

theorem C8_trailing_slash_counterexample:
  "last (filter (\<lambda>s. s \<noteq> []) (strings_Split (Attr_href anchor_trailing_slash) CHR ''/'')) = ''abc123''
   \<and> href_id (Attr_href anchor_trailing_slash) = []
   \<and> allProducts (snd (Handler (example_env [] [] [anchor_trailing_slash]))) = []"
  by (simp add: anchor_trailing_slash_def scraper_defs example_defs)

text \<open>
  C9, as amended. When the scan fails the handler logs the failure and exits the
  process through \<open>log.Fatalf\<close>: it returns neither an error nor a summary, the page is
  not visited and no write is issued.
\<close>

theorem C9_scan_failure_exits:
  assumes "db_Scan env = Inl err"
  shows "fst (Handler env) = Fatal_exit
       \<and> logs (snd (Handler env)) = [Log_FailedLoad err]
       \<and> \<not> visited (snd (Handler env))
       \<and> db_puts (snd (Handler env)) = []
       \<and> allProducts (snd (Handler env)) = []
       \<and> discoveredProducts (snd (Handler env)) = []"
  using assms by (simp add: Handler_def loadExistingProducts_def run_state_init_def)

theorem C9_scan_failure_exits_witness:
  "db_Scan scan_fails_env = Inl ''ResourceNotFoundException''
   \<and> fst (Handler scan_fails_env) = Fatal_exit
   \<and> logs (snd (Handler scan_fails_env)) = [Log_FailedLoad ''ResourceNotFoundException'']
   \<and> \<not> visited (snd (Handler scan_fails_env))
   \<and> db_puts (snd (Handler scan_fails_env)) = []"
proof -
  have h: "db_Scan scan_fails_env = Inl ''ResourceNotFoundException''"
    by (simp add: scan_fails_env_def)
  from C9_scan_failure_exits [OF h] show ?thesis using h by simp
qed

text \<open>
  C9 as stated fails: with a failing scan the handler does not return at all, so no
  error is returned to the caller.
\<close>

theorem C9_returned_error_counterexample:
  "db_Scan scan_fails_env = Inl ''ResourceNotFoundException''
   \<and> \<not> (\<exists>resp err. fst (Handler scan_fails_env) = Returned (resp, err))"
  by (simp add: scan_fails_env_def Handler_def loadExistingProducts_def)

text \<open>
  C10. At an \<open>INSERT\<close> record whose id, name and url are all empty the loop breaks:
  the products collected and the notifications published are those of the records before
  it, whatever follows it in the batch, the handler fails exactly when it fails on the
  records before it, and when it does not, its message reports the number of all the
  events of the batch.
\<close>

theorem C10_blank_insert_stops_the_batch:
  assumes "blank_insert r"
  shows "n_Products (fst (fst (notifier_Handler env \<lparr>Records = pre @ r # post\<rparr>)))
           = n_Products (fst (fst (notifier_Handler env \<lparr>Records = pre\<rparr>)))
       \<and> published (snd (notifier_Handler env \<lparr>Records = pre @ r # post\<rparr>))
           = published (snd (notifier_Handler env \<lparr>Records = pre\<rparr>))
       \<and> snd (fst (notifier_Handler env \<lparr>Records = pre @ r # post\<rparr>))
           = snd (fst (notifier_Handler env \<lparr>Records = pre\<rparr>))
       \<and> (snd (fst (notifier_Handler env \<lparr>Records = pre\<rparr>)) = None \<longrightarrow>
            n_Message (fst (fst (notifier_Handler env \<lparr>Records = pre @ r # post\<rparr>)))
              = ''Successfully processed '' @ fmt_d (length pre + 1 + length post)
                 @ '' DynamoDB stream event(s)'')"
proof -
  obtain e1 s1 where full: "records_loop env (pre @ r # post) notifier_state_init = (e1, s1)"
    by (cases "records_loop env (pre @ r # post) notifier_state_init")
  obtain e2 s2 where part: "records_loop env pre notifier_state_init = (e2, s2)"
    by (cases "records_loop env pre notifier_state_init")
  from records_loop_blank [OF assms, of env pre post notifier_state_init] full part
  have eq: "e1 = e2" "products s1 = products s2" "published s1 = published s2"
    by simp_all
  show ?thesis
    by (cases e2) (simp_all add: notifier_Handler_def full part eq notifier_Response_zero_def)
qed

theorem C10_blank_insert_stops_the_batch_witness:
  "blank_insert insert_blank
   \<and> fst (notifier_Handler deployed_env \<lparr>Records = [insert_hat]\<rparr>) =
       (\<lparr>n_Message = ''Successfully processed 1 DynamoDB stream event(s)'', n_Products = [Product ''abc123'']\<rparr>, None)
   \<and> fst (notifier_Handler deployed_env \<lparr>Records = [insert_hat] @ insert_blank # [insert_mug]\<rparr>) =
       (\<lparr>n_Message = ''Successfully processed 3 DynamoDB stream event(s)'', n_Products = [Product ''abc123'']\<rparr>, None)
   \<and> published (snd (notifier_Handler deployed_env \<lparr>Records = [insert_hat] @ insert_blank # [insert_mug]\<rparr>)) =
       published (snd (notifier_Handler deployed_env \<lparr>Records = [insert_hat]\<rparr>))
   \<and> map pi_Message (published (snd (notifier_Handler deployed_env \<lparr>Records = [insert_hat]\<rparr>))) =
       [''New Rivian Gear Shop product added: Trail Hat, Url: https://rivian.com/products/abc123, Price: $35.00'']"
proof -
  have b: "blank_insert insert_blank"
    by (simp add: blank_insert_def insert_blank_def image_of_def)
  have one: "fst (notifier_Handler deployed_env \<lparr>Records = [insert_hat]\<rparr>) =
       (\<lparr>n_Message = ''Successfully processed 1 DynamoDB stream event(s)'', n_Products = [Product ''abc123'']\<rparr>, None)"
    by (simp add: notifier_Handler_def notifier_state_init_def is_local_def GEAR_SHOP_HOSTNAME_def
          image_of_def insert_hat_def deployed_env_def Let_def fmt_d.simps digit_char_def)
  have msg: "map pi_Message (published (snd (notifier_Handler deployed_env \<lparr>Records = [insert_hat]\<rparr>))) =
       [''New Rivian Gear Shop product added: Trail Hat, Url: https://rivian.com/products/abc123, Price: $35.00'']"
    by (simp add: notifier_Handler_def notifier_state_init_def is_local_def GEAR_SHOP_HOSTNAME_def
          image_of_def insert_hat_def deployed_env_def Let_def fmt_d.simps digit_char_def)
  have three: "fmt_d (length [insert_hat] + 1 + length [insert_mug]) = ''3''"
    by (simp add: fmt_d.simps digit_char_def)
  from C10_blank_insert_stops_the_batch [OF b, of deployed_env "[insert_hat]" "[insert_mug]"]
  show ?thesis
    using b one msg three
    by (cases "fst (notifier_Handler deployed_env \<lparr>Records = [insert_hat] @ insert_blank # [insert_mug]\<rparr>)")
       (auto simp del: append.simps)
qed

end
